theory Spec2Isabelle
  imports Complex_Main
begin

section \<open>The QNN classifier of scikit-qulacs (\<^verbatim>\<open>skqulacs/qnn/classifier.py\<close>)\<close>

text \<open>
  The class \<^verbatim>\<open>QNNClassifier\<close> is embedded function by function. numpy's float64 values
  are idealised as HOL reals (\<open>exp\<close>, \<open>ln\<close> and \<open>sqrt\<close> are the mathematical
  functions), Python's exceptions are values of the type \<open>error\<close>, and the circuit
  object the classifier mutates is a state that every method takes and returns.
\<close>

subsection \<open>Exceptions and loops\<close>

datatype error = NotImplementedError | IndexError | ZeroDivisionError | ValueError | TypeError

definition bindE :: "error + 'a \<Rightarrow> ('a \<Rightarrow> error + 'b) \<Rightarrow> error + 'b" where
  "bindE r f = (case r of Inl e \<Rightarrow> Inl e | Inr v \<Rightarrow> f v)"

text \<open>\<^verbatim>\<open>xs[i]\<close> for a non-negative index: IndexError when out of range.\<close>

definition getitem :: "'a list \<Rightarrow> nat \<Rightarrow> error + 'a" where
  "getitem xs i = (if i < length xs then Inr (xs ! i) else Inl IndexError)"

text \<open>
  \<^verbatim>\<open>for i in idx: s = body(i, s)\<close>, where the body may raise: the loop stops at the
  first exception.
\<close>

fun for_loop :: "'i list \<Rightarrow> ('i \<Rightarrow> 's \<Rightarrow> error + 's) \<Rightarrow> 's \<Rightarrow> error + 's" where
  "for_loop [] body s = Inr s"
| "for_loop (i # idx) body s = bindE (body i s) (for_loop idx body)"

subsection \<open>The model object\<close>

text \<open>
  The fields of \<^verbatim>\<open>QNNClassifier.__init__\<close> that the methods read. \<^verbatim>\<open>scale_y_param\<close>
  is the two-element list \<^verbatim>\<open>[syurui, syurui_rui]\<close> (group sizes, cumulative offsets),
  and the empty list before \<^verbatim>\<open>fit\<close>. \<^verbatim>\<open>callback\<close> records only whether a callback
  was given.
\<close>

record qnn_classifier =
  n_qubit :: nat
  num_class :: nat
  solver :: string
  cost :: string
  do_x_scale :: bool
  x_norm_range :: real
  y_exp_ratio :: real
  callback :: bool
  scale_y_param :: "nat list list"

subsection \<open>Target encoding: \<^verbatim>\<open>get_y_scale_param\<close> and \<^verbatim>\<open>rev_y_scale\<close>\<close>

text \<open>
  \<^verbatim>\<open>get_y_scale_param\<close> walks over \<^verbatim>\<open>self.enc.categories_\<close> (one array of levels per
  label column), appending each length to \<^verbatim>\<open>syurui\<close> and the running total
  \<^verbatim>\<open>genkaz\<close> to \<^verbatim>\<open>syurui_rui\<close>, which starts as \<^verbatim>\<open>[0]\<close>.
\<close>

fun get_y_scale_param_loop :: "'a list list \<Rightarrow> nat list \<Rightarrow> nat list \<Rightarrow> nat \<Rightarrow> nat list list" where
  "get_y_scale_param_loop [] syurui syurui_rui genkaz = [syurui, syurui_rui]"
| "get_y_scale_param_loop (aaa # categories) syurui syurui_rui genkaz =
     get_y_scale_param_loop categories (syurui @ [length aaa])
       (syurui_rui @ [genkaz + length aaa]) (genkaz + length aaa)"

definition get_y_scale_param :: "'a list list \<Rightarrow> nat list list" where
  "get_y_scale_param categories = get_y_scale_param_loop categories [] [0] 0"

text \<open>
  The innermost loop of \<^verbatim>\<open>rev_y_scale\<close>: the state is \<^verbatim>\<open>(sai, arg)\<close>, the best value
  so far and its index; the comparison is strict.
\<close>

definition rev_y_scale_k :: "real list \<Rightarrow> nat \<Rightarrow> nat \<Rightarrow> real \<times> nat \<Rightarrow> error + real \<times> nat" where
  "rev_y_scale_k row hid k st =
     bindE (getitem row (hid + k)) (\<lambda>v. if fst st < v then Inr (v, k) else Inr st)"

text \<open>The body of the loop over the groups \<^verbatim>\<open>j\<close>, for one row of \<^verbatim>\<open>y_inr\<close>.\<close>

definition rev_y_scale_j :: "qnn_classifier \<Rightarrow> real list \<Rightarrow> nat \<Rightarrow> nat list \<Rightarrow> error + nat list" where
  "rev_y_scale_j self row j res_row =
     bindE (getitem (scale_y_param self) 1) (\<lambda>syurui_rui.
     bindE (getitem syurui_rui j) (\<lambda>hid.
     bindE (getitem (scale_y_param self) 0) (\<lambda>syurui.
     bindE (getitem syurui j) (\<lambda>n.
     bindE (for_loop [0..<n] (rev_y_scale_k row hid) (- 99998888, 0)) (\<lambda>st.
       Inr (res_row[j := snd st]))))))"

text \<open>
  One row of the result: \<^verbatim>\<open>res[i]\<close> starts as zeros, one entry per group. Reading
  \<^verbatim>\<open>len(self.scale_y_param[0])\<close> raises IndexError before \<^verbatim>\<open>fit\<close>.
\<close>

definition rev_y_scale_i :: "qnn_classifier \<Rightarrow> real list \<Rightarrow> error + nat list" where
  "rev_y_scale_i self row =
     bindE (getitem (scale_y_param self) 0) (\<lambda>syurui.
       for_loop [0..<length syurui] (rev_y_scale_j self row) (replicate (length syurui) 0))"

definition rev_y_scale :: "qnn_classifier \<Rightarrow> real list list \<Rightarrow> error + nat list list" where
  "rev_y_scale self y_inr =
     bindE (getitem (scale_y_param self) 0) (\<lambda>syurui.
       for_loop [0..<length y_inr]
         (\<lambda>i res. bindE (rev_y_scale_i self (y_inr ! i)) (\<lambda>r. Inr (res[i := r])))
         (replicate (length y_inr) (replicate (length syurui) 0)))"

text \<open>
  Helpers for stating properties of the encoding: the offset of group \<open>j\<close> as the
  sum of the sizes of the groups before it, and the index the innermost loop of
  \<^verbatim>\<open>rev_y_scale\<close> returns for one group of one row.
\<close>

definition group_offset :: "'a list list \<Rightarrow> nat \<Rightarrow> nat" where
  "group_offset cats j = sum_list (map length (take j cats))"

definition group_argmax :: "'a list list \<Rightarrow> real list \<Rightarrow> nat \<Rightarrow> nat" where
  "group_argmax cats row j =
     snd (projr (for_loop [0..<length (cats ! j)]
            (rev_y_scale_k row (group_offset cats j)) (- 99998888, 0)))"

subsection \<open>The circuit adapter and the libraries\<close>

text \<open>
  An observable is the list of the terms added with \<^verbatim>\<open>add_operator(coef, "Z i")\<close>, in
  the order they were added.
\<close>

type_synonym observable = "(real \<times> nat) list"

datatype event =
    UpdateParameters "real list"
  | Run "real list"
  | Backprop "real list" observable
  | Callback "real list"

text \<open>
  Modelled from the spec: the class \<^verbatim>\<open>LearningCircuit\<close> of \<^verbatim>\<open>skqulacs.circuit\<close> is
  missing. The spec's Circuit Adapter holds the parameter vector, which only
  \<^verbatim>\<open>update_parameters\<close> writes; \<^verbatim>\<open>run\<close> and \<^verbatim>\<open>backprop\<close> read it and have no
  other effect. The state also logs every call made on the circuit (and every
  callback invocation), in order.
\<close>

record circuit =
  parameters :: "real list"
  trace :: "event list"

type_synonym 'a circuit_op = "circuit \<Rightarrow> (error + 'a) \<times> circuit"

text \<open>
  What the code takes from outside, as parameters of the model: the expectation value
  of \<^verbatim>\<open>Z i\<close> on the state \<^verbatim>\<open>circuit.run(x)\<close> under given parameters, the gradient
  \<^verbatim>\<open>circuit.backprop(x, obs)\<close> returns, \<^verbatim>\<open>MinMaxScaler(feature_range=(-r, r)).fit_transform\<close>,
  and \<^verbatim>\<open>scipy.optimize.minimize\<close> (method, fun, jac, x0, maxiter).
\<close>

record externals =
  expectation_value :: "real list \<Rightarrow> real list \<Rightarrow> nat \<Rightarrow> real"
  backprop_gradient :: "real list \<Rightarrow> real list \<Rightarrow> observable \<Rightarrow> real list"
  fit_transform :: "real \<Rightarrow> real list list \<Rightarrow> error + real list list"
  minimize :: "string \<Rightarrow> (real list \<Rightarrow> real circuit_op) \<Rightarrow>
     (real list \<Rightarrow> (real list) circuit_op) option \<Rightarrow> real list \<Rightarrow> int option \<Rightarrow>
     (real \<times> real list) circuit_op"

definition update_parameters :: "circuit \<Rightarrow> real list \<Rightarrow> circuit" where
  "update_parameters c theta =
     c\<lparr>parameters := theta, trace := trace c @ [UpdateParameters theta]\<rparr>"

definition get_parameters :: "circuit \<Rightarrow> real list" where
  "get_parameters c = parameters c"

definition run :: "circuit \<Rightarrow> real list \<Rightarrow> circuit" where
  "run c x = c\<lparr>trace := trace c @ [Run x]\<rparr>"

definition backprop :: "externals \<Rightarrow> circuit \<Rightarrow> real list \<Rightarrow> observable \<Rightarrow> real list \<times> circuit" where
  "backprop ex c x obs =
     (backprop_gradient ex (parameters c) x obs, c\<lparr>trace := trace c @ [Backprop x obs]\<rparr>)"

text \<open>
  Modelled from the spec: scikit-learn's \<^verbatim>\<open>OneHotEncoder\<close> is a library. The spec's
  Target Encoder takes, per label column, the distinct levels found in the training data
  (scikit-learn keeps them sorted) and encodes a row as the concatenation of one one-hot
  block per column. Fitting on no samples is an error.
\<close>

definition enc_categories :: "int list list \<Rightarrow> int list list" where
  "enc_categories y = map (\<lambda>c. sort (remdups (map (\<lambda>row. row ! c) y))) [0..<length (hd y)]"

definition enc_transform :: "int list list \<Rightarrow> int list list \<Rightarrow> real list list" where
  "enc_transform cats y =
     map (\<lambda>row. concat (map (\<lambda>c. map (\<lambda>v. if row ! c = v then 1 else 0) (cats ! c))
                           [0..<length cats])) y"

text \<open>A loop over the circuit: the state of the circuit survives an exception.\<close>

fun for_loop_c :: "'i list \<Rightarrow> ('i \<Rightarrow> 's \<Rightarrow> 's circuit_op) \<Rightarrow> 's \<Rightarrow> 's circuit_op" where
  "for_loop_c [] body s c = (Inr s, c)"
| "for_loop_c (i # idx) body s c =
     (case body i s c of
        (Inl e, c') \<Rightarrow> (Inl e, c')
      | (Inr s', c') \<Rightarrow> for_loop_c idx body s' c')"

subsection \<open>\<^verbatim>\<open>_predict_inner\<close>\<close>

text \<open>
  One circuit run per sample, then the expectation value of each of the
  \<^verbatim>\<open>n_qubit\<close> observables \<^verbatim>\<open>Z i\<close> on the resulting state.
\<close>

definition predict_inner_x ::
  "externals \<Rightarrow> qnn_classifier \<Rightarrow> real list \<Rightarrow> real list list \<times> circuit \<Rightarrow> real list list \<times> circuit" where
  "predict_inner_x ex self x st =
     (fst st @ [map (expectation_value ex (parameters (snd st)) x) [0..<n_qubit self]],
      run (snd st) x)"

definition predict_inner ::
  "externals \<Rightarrow> qnn_classifier \<Rightarrow> circuit \<Rightarrow> real list list \<Rightarrow> real list list \<times> circuit" where
  "predict_inner ex self c x_list = fold (predict_inner_x ex self) x_list ([], c)"

subsection \<open>\<^verbatim>\<open>cost_func\<close>\<close>

text \<open>The first loop over \<^verbatim>\<open>k\<close>: \<^verbatim>\<open>wa += np.exp(self.y_exp_ratio * y_pred[i][hid + k])\<close>.\<close>

definition softmax_wa :: "real \<Rightarrow> real list \<Rightarrow> nat \<Rightarrow> nat \<Rightarrow> real \<Rightarrow> error + real" where
  "softmax_wa ratio row hid k wa =
     bindE (getitem row (hid + k)) (\<lambda>v. Inr (wa + exp (ratio * v)))"

text \<open>The second loop over \<^verbatim>\<open>k\<close>: \<^verbatim>\<open>ypf.append(np.exp(...) / wa)\<close>.\<close>

definition cost_func_k :: "real \<Rightarrow> real list \<Rightarrow> nat \<Rightarrow> real \<Rightarrow> nat \<Rightarrow> real list \<Rightarrow> error + real list" where
  "cost_func_k ratio row hid wa k ypf =
     bindE (getitem row (hid + k)) (\<lambda>v. Inr (ypf @ [exp (ratio * v) / wa]))"

definition cost_func_j :: "qnn_classifier \<Rightarrow> real list \<Rightarrow> nat \<Rightarrow> real list \<Rightarrow> error + real list" where
  "cost_func_j self row j ypf =
     bindE (getitem (scale_y_param self) 1) (\<lambda>syurui_rui.
     bindE (getitem syurui_rui j) (\<lambda>hid.
     bindE (getitem (scale_y_param self) 0) (\<lambda>syurui.
     bindE (getitem syurui j) (\<lambda>n.
     bindE (for_loop [0..<n] (softmax_wa (y_exp_ratio self) row hid) 0) (\<lambda>wa.
       for_loop [0..<n] (cost_func_k (y_exp_ratio self) row hid wa) ypf)))))"

definition cost_func_i :: "qnn_classifier \<Rightarrow> real list list \<Rightarrow> nat \<Rightarrow> real list \<Rightarrow> error + real list" where
  "cost_func_i self y_pred i ypf =
     bindE (getitem (scale_y_param self) 0) (\<lambda>syurui.
       for_loop [0..<length syurui] (cost_func_j self (y_pred ! i)) ypf)"

text \<open>The list \<^verbatim>\<open>ypf\<close> of predicted probabilities, flat over samples and positions.\<close>

definition cost_func_ypf :: "qnn_classifier \<Rightarrow> real list list \<Rightarrow> error + real list" where
  "cost_func_ypf self y_pred = for_loop [0..<length y_pred] (cost_func_i self y_pred) []"

text \<open>\<^verbatim>\<open>if ysf[i] == 1: cost -= np.log(ypf[i])\<close>\<close>

definition cost_func_log :: "real list \<Rightarrow> real list \<Rightarrow> nat \<Rightarrow> real \<Rightarrow> error + real" where
  "cost_func_log ypf ysf i cost' =
     (if ysf ! i = 1 then bindE (getitem ypf i) (\<lambda>p. Inr (cost' - ln p)) else Inr cost')"

text \<open>
  \<^verbatim>\<open>cost /= len(ysf)\<close>: with no entry in \<^verbatim>\<open>ysf\<close> the cost is still the Python integer
  0, and the division raises ZeroDivisionError.
\<close>

definition cost_func ::
  "externals \<Rightarrow> qnn_classifier \<Rightarrow> real list \<Rightarrow> real list list \<Rightarrow> real list list \<Rightarrow> real circuit_op" where
  "cost_func ex self theta x_scaled y_scaled c =
     (if cost self = ''log_loss'' then
        (let c1 = update_parameters c theta;
             pred = predict_inner ex self c1 x_scaled;
             ysf = concat y_scaled
         in (bindE (cost_func_ypf self (fst pred)) (\<lambda>ypf.
             bindE (for_loop [0..<length ysf] (cost_func_log ypf ysf) 0) (\<lambda>cost'.
               if length ysf = 0 then Inl ZeroDivisionError
               else Inr (cost' / real (length ysf)))),
             snd pred))
      else (Inl NotImplementedError, c))"

subsection \<open>\<^verbatim>\<open>_cost_func_grad\<close>\<close>

text \<open>
  The second loop over \<^verbatim>\<open>k\<close> overwrites the row of \<^verbatim>\<open>mto\<close> in place:
  \<^verbatim>\<open>mto[h][hid + k] = np.exp(self.y_exp_ratio * mto[h][hid + k]) / wa\<close>.
\<close>

definition cost_func_grad_k :: "real \<Rightarrow> nat \<Rightarrow> real \<Rightarrow> nat \<Rightarrow> real list \<Rightarrow> error + real list" where
  "cost_func_grad_k ratio hid wa k row =
     bindE (getitem row (hid + k)) (\<lambda>v. Inr (row[hid + k := exp (ratio * v) / wa]))"

definition cost_func_grad_j :: "qnn_classifier \<Rightarrow> nat \<Rightarrow> real list \<Rightarrow> error + real list" where
  "cost_func_grad_j self j row =
     bindE (getitem (scale_y_param self) 1) (\<lambda>syurui_rui.
     bindE (getitem syurui_rui j) (\<lambda>hid.
     bindE (getitem (scale_y_param self) 0) (\<lambda>syurui.
     bindE (getitem syurui j) (\<lambda>n.
     bindE (for_loop [0..<n] (softmax_wa (y_exp_ratio self) row hid) 0) (\<lambda>wa.
       for_loop [0..<n] (cost_func_grad_k (y_exp_ratio self) hid wa) row)))))"

text \<open>The row \<^verbatim>\<open>mto[h]\<close> after the loop over the groups.\<close>

definition cost_func_grad_softmax :: "qnn_classifier \<Rightarrow> real list \<Rightarrow> error + real list" where
  "cost_func_grad_softmax self row =
     bindE (getitem (scale_y_param self) 0) (\<lambda>syurui.
       for_loop [0..<length syurui] (cost_func_grad_j self) row)"

text \<open>
  \<^verbatim>\<open>backobs.add_operator((mto[h][i] - y_scaled[h][i]) * self.y_exp_ratio, f"Z {i}")\<close>
\<close>

definition cost_func_grad_obs ::
  "real \<Rightarrow> real list \<Rightarrow> real list list \<Rightarrow> nat \<Rightarrow> nat \<Rightarrow> observable \<Rightarrow> error + observable" where
  "cost_func_grad_obs ratio row y_scaled h i backobs =
     bindE (getitem row i) (\<lambda>p.
     bindE (getitem y_scaled h) (\<lambda>y_h.
     bindE (getitem y_h i) (\<lambda>y. Inr (backobs @ [((p - y) * ratio, i)]))))"

definition cost_func_grad_backobs ::
  "qnn_classifier \<Rightarrow> real list \<Rightarrow> real list list \<Rightarrow> nat \<Rightarrow> error + observable" where
  "cost_func_grad_backobs self row y_scaled h =
     bindE (getitem y_scaled 0) (\<lambda>y_0.
       for_loop [0..<length y_0] (cost_func_grad_obs (y_exp_ratio self) row y_scaled h) [])"

text \<open>
  \<^verbatim>\<open>grad += b\<close> on numpy arrays: elementwise when the shapes agree, a one-element
  \<^verbatim>\<open>b\<close> is broadcast, any other shape raises ValueError.
\<close>

definition np_iadd :: "real list \<Rightarrow> real list \<Rightarrow> error + real list" where
  "np_iadd a b =
     (if length b = length a then Inr (map2 (+) a b)
      else if length b = 1 then Inr (map (\<lambda>v. v + hd b) a)
      else Inl ValueError)"

text \<open>The body of the loop over the samples \<^verbatim>\<open>h\<close>; the state is \<^verbatim>\<open>(mto, grad)\<close>.\<close>

definition cost_func_grad_h ::
  "externals \<Rightarrow> qnn_classifier \<Rightarrow> real list list \<Rightarrow> real list list \<Rightarrow> nat \<Rightarrow>
   real list list \<times> real list \<Rightarrow> (real list list \<times> real list) circuit_op" where
  "cost_func_grad_h ex self x_scaled y_scaled h st c =
     (case bindE (cost_func_grad_softmax self (fst st ! h)) (\<lambda>row.
           bindE (cost_func_grad_backobs self row y_scaled h) (\<lambda>backobs. Inr (row, backobs))) of
        Inl e \<Rightarrow> (Inl e, c)
      | Inr rb \<Rightarrow>
          (let bp = backprop ex c (x_scaled ! h) (snd rb)
           in (bindE (np_iadd (snd st) (fst bp)) (\<lambda>grad. Inr ((fst st)[h := fst rb], grad)),
               snd bp)))"

text \<open>
  \<^verbatim>\<open>grad /= len(x_scaled)\<close> on a numpy array: with no sample (and at least one
  parameter) numpy yields NaN entries rather than raising; the reals have no NaN, and
  the model reports that case as ZeroDivisionError.
\<close>

definition cost_func_grad ::
  "externals \<Rightarrow> qnn_classifier \<Rightarrow> real list \<Rightarrow> real list list \<Rightarrow> real list list \<Rightarrow>
   (real list) circuit_op" where
  "cost_func_grad ex self theta x_scaled y_scaled c =
     (let c1 = update_parameters c theta;
          pred = predict_inner ex self c1 x_scaled
      in case for_loop_c [0..<length x_scaled] (cost_func_grad_h ex self x_scaled y_scaled)
                (fst pred, replicate (length theta) 0) (snd pred) of
           (Inl e, c3) \<Rightarrow> (Inl e, c3)
         | (Inr st, c3) \<Rightarrow>
             (if length x_scaled = 0 \<and> theta \<noteq> [] then Inl ZeroDivisionError
              else Inr (map (\<lambda>g. g / real (length x_scaled)) (snd st)),
              update_parameters c3 theta))"

subsection \<open>\<^verbatim>\<open>fit\<close>\<close>

text \<open>The state of the loop of the solver \<^verbatim>\<open>"Adam"\<close>.\<close>

record adam_state =
  theta_now :: "real list"
  moment :: "real list"
  vel :: real
  Bix :: real
  Btx :: real

text \<open>
  The five assignments that follow the gradient in the loop body, with the
  hyperparameters \<^verbatim>\<open>pr_A\<close>, \<^verbatim>\<open>pr_Bi\<close>, \<^verbatim>\<open>pr_Bt\<close>, \<^verbatim>\<open>pr_ips\<close> of the source.
\<close>

definition adam_update :: "real list \<Rightarrow> adam_state \<Rightarrow> adam_state" where
  "adam_update grad s =
     (let pr_A = 0.02; pr_Bi = 0.8; pr_Bt = 0.995; pr_ips = 0.0000001;
          moment1 = map2 (\<lambda>m g. m * pr_Bi + (1 - pr_Bi) * g) (moment s) grad;
          vel1 = vel s * pr_Bt + (1 - pr_Bt) * sum_list (map2 (*) grad grad);
          Bix1 = Bix s * pr_Bi + (1 - pr_Bi);
          Btx1 = Btx s * pr_Bt + (1 - pr_Bt);
          theta1 = map2 (\<lambda>t m. t - pr_A / (sqrt (vel1 / Btx1) + pr_ips) * (m / Bix1))
                     (theta_now s) moment1
      in \<lparr>theta_now = theta1, moment = moment1, vel = vel1, Bix = Bix1, Btx = Btx1\<rparr>)"

text \<open>\<^verbatim>\<open>range(0, maxiter, 5)\<close>\<close>

definition range5 :: "int \<Rightarrow> nat list" where
  "range5 m = map (\<lambda>q. 5 * q) [0..<(nat m + 4) div 5]"

text \<open>
  The window of one step: \<^verbatim>\<open>x_scaled[iter % len(x_train) : iter % len(x_train) + 5]\<close>,
  a Python slice, which stops at the end of the array.
\<close>

definition window :: "'a list \<Rightarrow> nat \<Rightarrow> nat \<Rightarrow> 'a list" where
  "window xs n iter = take 5 (drop (iter mod n) xs)"

definition adam_step ::
  "externals \<Rightarrow> qnn_classifier \<Rightarrow> nat \<Rightarrow> nat \<Rightarrow> real list list \<Rightarrow> real list list \<Rightarrow> nat \<Rightarrow>
   adam_state \<Rightarrow> adam_state circuit_op" where
  "adam_step ex self len_x len_y x_scaled y_scaled iter s c =
     (case cost_func_grad ex self (theta_now s)
             (window x_scaled len_x iter) (window y_scaled len_y iter) c of
        (Inl e, c') \<Rightarrow> (Inl e, c')
      | (Inr grad, c') \<Rightarrow>
          (let s' = adam_update grad s
           in (Inr s',
               if callback self then c'\<lparr>trace := trace c' @ [Callback (theta_now s')]\<rparr> else c')))"

text \<open>
  \<^verbatim>\<open>fit\<close>: the targets are encoded and \<^verbatim>\<open>scale_y_param\<close> is set, the inputs are scaled
  when \<^verbatim>\<open>do_x_scale\<close> holds, and the solver runs. The result is the pair
  \<^verbatim>\<open>(loss, theta_opt)\<close> or the exception, with the updated model and circuit.
  \<^verbatim>\<open>maxiter\<close> defaults to \<^verbatim>\<open>None\<close>, on which \<^verbatim>\<open>maxiter *= len(x_train)\<close> raises
  TypeError.
\<close>

definition fit_solver ::
  "externals \<Rightarrow> qnn_classifier \<Rightarrow> real list list \<Rightarrow> int list list \<Rightarrow> real list list \<Rightarrow>
   real list list \<Rightarrow> int option \<Rightarrow> (real \<times> real list) circuit_op" where
  "fit_solver ex self x_train y_train x_scaled y_scaled maxiter c =
     (let theta_init = get_parameters c in
      if solver self = ''Nelder-Mead'' then
        minimize ex (solver self) (\<lambda>theta. cost_func ex self theta x_scaled y_scaled) None
          theta_init maxiter c
      else if solver self = ''BFGS'' then
        minimize ex (solver self) (\<lambda>theta. cost_func ex self theta x_scaled y_scaled)
          (Some (\<lambda>theta. cost_func_grad ex self theta x_scaled y_scaled)) theta_init maxiter c
      else if solver self = ''Adam'' then
        (case maxiter of
           None \<Rightarrow> (Inl TypeError, c)
         | Some m \<Rightarrow>
             (case for_loop_c (range5 (m * int (length x_train)))
                     (adam_step ex self (length x_train) (length y_train) x_scaled y_scaled)
                     \<lparr>theta_now = theta_init, moment = replicate (length theta_init) 0,
                      vel = 0, Bix = 0, Btx = 0\<rparr> c of
                (Inl e, c') \<Rightarrow> (Inl e, c')
              | (Inr s, c') \<Rightarrow>
                  (case cost_func ex self (theta_now s) x_train (map (map real_of_int) y_train) c' of
                     (Inl e, c'') \<Rightarrow> (Inl e, c'')
                   | (Inr loss, c'') \<Rightarrow> (Inr (loss, theta_now s), c''))))
      else (Inl NotImplementedError, c))"

definition fit ::
  "externals \<Rightarrow> qnn_classifier \<Rightarrow> real list list \<Rightarrow> int list list \<Rightarrow> int option \<Rightarrow> circuit \<Rightarrow>
   ((error + real \<times> real list) \<times> circuit) \<times> qnn_classifier" where
  "fit ex self x_train y_train maxiter c =
     (if y_train = [] then ((Inl ValueError, c), self)
      else
        (let y_scaled = enc_transform (enc_categories y_train) y_train;
             self1 = self\<lparr>scale_y_param := get_y_scale_param (enc_categories y_train)\<rparr>
         in case (if do_x_scale self then fit_transform ex (x_norm_range self) x_train
                  else Inr x_train) of
              Inl e \<Rightarrow> ((Inl e, c), self1)
            | Inr x_scaled \<Rightarrow>
                (fit_solver ex self1 x_train y_train x_scaled y_scaled maxiter c, self1)))"

subsection \<open>The grouped softmax, as the specification states it\<close>

text \<open>
  For the group at offset \<open>hid\<close> with \<open>n\<close> entries, \<open>p_k\<close> is \<open>exp (ratio * r[hid + k])\<close>
  over the sum of these exponentials over the group; a row of probabilities is the
  concatenation of the groups' softmaxes, in the order of the groups.
\<close>

definition group_softmax :: "real \<Rightarrow> real list \<Rightarrow> nat \<Rightarrow> nat \<Rightarrow> real list" where
  "group_softmax ratio r hid n =
     map (\<lambda>k. exp (ratio * r ! (hid + k)) / (\<Sum>k' < n. exp (ratio * r ! (hid + k')))) [0..<n]"

definition grouped_softmax :: "real \<Rightarrow> 'a list list \<Rightarrow> real list \<Rightarrow> real list" where
  "grouped_softmax ratio cats r =
     concat (map (\<lambda>j. group_softmax ratio r (group_offset cats j) (length (cats ! j)))
               [0..<length cats])"

subsection \<open>Closed forms and example inputs\<close>

text \<open>
  The matrix \<^verbatim>\<open>_predict_inner\<close> returns under the parameters \<open>theta\<close>, and the flat
  list of grouped-softmax probabilities of all samples.
\<close>

definition raw_outputs :: "externals \<Rightarrow> qnn_classifier \<Rightarrow> real list \<Rightarrow> real list list \<Rightarrow> real list list" where
  "raw_outputs ex self theta x_list =
     map (\<lambda>x. map (expectation_value ex theta x) [0..<n_qubit self]) x_list"

definition predicted :: "externals \<Rightarrow> qnn_classifier \<Rightarrow> 'a list list \<Rightarrow> real list \<Rightarrow> real list list \<Rightarrow> real list" where
  "predicted ex self cats theta x_list =
     concat (map (grouped_softmax (y_exp_ratio self) cats) (raw_outputs ex self theta x_list))"

text \<open>
  A circuit and libraries for evaluating the code on concrete inputs: every expectation
  value and every gradient entry is 0, the scaler is the identity, and the optimiser
  evaluates the cost once at the initial parameters.
\<close>

definition example_externals :: externals where
  "example_externals =
     \<lparr>expectation_value = (\<lambda>theta x i. 0),
      backprop_gradient = (\<lambda>theta x obs. map (\<lambda>t. 0) theta),
      fit_transform = (\<lambda>r x. Inr x),
      minimize = (\<lambda>method f jac x0 maxiter c.
         case f x0 c of (Inl e, c') \<Rightarrow> (Inl e, c') | (Inr v, c') \<Rightarrow> (Inr (v, x0), c'))\<rparr>"

section \<open>Properties\<close>

subsection \<open>Exceptions and loops\<close>

lemma bindE_Inr [simp]: "bindE (Inr v) f = f v"
  by (simp add: bindE_def)

lemma bindE_Inl [simp]: "bindE (Inl e) f = Inl e"
  by (simp add: bindE_def)

lemma for_loop_append:
  "for_loop (xs @ ys) body s = bindE (for_loop xs body s) (for_loop ys body)"
  by (induction xs arbitrary: s) (auto simp: bindE_def split: sum.splits)

lemma for_loop_upt_Suc:
  "for_loop [0..<Suc n] body s = bindE (for_loop [0..<n] body s) (body n)"
  by (simp add: for_loop_append) (simp add: bindE_def split: sum.splits)

subsection \<open>The encoding\<close>

lemma get_y_scale_param_loop_eq:
  "get_y_scale_param_loop cats sy sr g =
     [sy @ map length cats,
      sr @ map (\<lambda>j. g + sum_list (map length (take (Suc j) cats))) [0..<length cats]]"
proof (induction cats arbitrary: sy sr g)
  case Nil
  then show ?case by simp
next
  case (Cons a cats)
  have "map (\<lambda>j. g + sum_list (map length (take (Suc j) (a # cats)))) [0..<length (a # cats)] =
        (g + length a) # map (\<lambda>j. g + length a + sum_list (map length (take (Suc j) cats))) [0..<length cats]"
    by (simp add: upt_conv_Cons map_Suc_upt [symmetric] add.assoc del: upt_Suc)
  then show ?case by (simp add: Cons.IH)
qed

lemma get_y_scale_param_eq:
  "get_y_scale_param cats =
     [map length cats, map (group_offset cats) [0..<Suc (length cats)]]"
proof -
  have "map (group_offset cats) [0..<Suc (length cats)] =
        0 # map (\<lambda>j. 0 + sum_list (map length (take (Suc j) cats))) [0..<length cats]"
    by (simp add: upt_conv_Cons map_Suc_upt [symmetric] group_offset_def del: upt_Suc)
  then show ?thesis
    by (simp add: get_y_scale_param_def get_y_scale_param_loop_eq)
qed

lemma group_offset_Suc:
  "j < length cats \<Longrightarrow> group_offset cats (Suc j) = group_offset cats j + length (cats ! j)"
  by (simp add: group_offset_def take_Suc_conv_app_nth)

lemma group_offset_le_total:
  "group_offset cats j \<le> sum_list (map length cats)"
proof -
  have "sum_list (map length cats) =
        sum_list (map length (take j cats)) + sum_list (map length (drop j cats))"
    by (metis append_take_drop_id map_append sum_list_append)
  then show ?thesis by (simp add: group_offset_def)
qed

lemma for_loop_update_prefix:
  assumes body: "\<And>i res. i < n \<Longrightarrow> length res = m \<Longrightarrow> body i res = Inr (res[i := v i])"
    and "n \<le> m" and init: "length init = m"
  shows "k \<le> n \<Longrightarrow> for_loop [0..<k] body init = Inr (map v [0..<k] @ drop k init)"
proof (induction k)
  case 0
  then show ?case by simp
next
  case (Suc k)
  then have run: "for_loop [0..<k] body init = Inr (map v [0..<k] @ drop k init)" by simp
  have len: "length (map v [0..<k] @ drop k init) = m"
    using Suc.prems assms(2) init by simp
  have "k < length init" using Suc.prems assms(2) init by simp
  then have "drop k init = init ! k # drop (Suc k) init"
    by (simp add: Cons_nth_drop_Suc)
  then have upd: "(map v [0..<k] @ drop k init)[k := v k] = map v [0..<Suc k] @ drop (Suc k) init"
    by (simp add: list_update_append)
  have step: "body k (map v [0..<k] @ drop k init) = Inr ((map v [0..<k] @ drop k init)[k := v k])"
    using Suc.prems by (intro body len) simp
  show ?case
    by (simp only: for_loop_upt_Suc run bindE_Inr step upd)
qed

lemma for_loop_update:
  assumes "\<And>i res. i < n \<Longrightarrow> length res = n \<Longrightarrow> body i res = Inr (res[i := v i])"
    and "length init = n"
  shows "for_loop [0..<n] body init = Inr (map v [0..<n])"
  using for_loop_update_prefix [of n n body v init n] assms by simp


lemma rev_y_scale_k_loop:
  assumes "hid + n \<le> length row"
  shows "\<exists>sai arg. for_loop [0..<n] (rev_y_scale_k row hid) (s0, 0) = Inr (sai, arg) \<and>
           (\<forall>k<n. row ! (hid + k) \<le> sai) \<and>
           ((sai = s0 \<and> arg = 0) \<or>
            (arg < n \<and> sai = row ! (hid + arg) \<and> s0 < sai \<and> (\<forall>k<arg. row ! (hid + k) < sai)))"
  using assms
proof (induction n)
  case 0
  then show ?case by simp
next
  case (Suc n)
  then obtain sai arg where
    run: "for_loop [0..<n] (rev_y_scale_k row hid) (s0, 0) = Inr (sai, arg)" and
    ub: "\<forall>k<n. row ! (hid + k) \<le> sai" and
    best: "(sai = s0 \<and> arg = 0) \<or>
           (arg < n \<and> sai = row ! (hid + arg) \<and> s0 < sai \<and> (\<forall>k<arg. row ! (hid + k) < sai))"
    by force
  from Suc.prems have inb: "hid + n < length row" by simp
  show ?case
  proof (cases "sai < row ! (hid + n)")
    case True
    with inb run have "for_loop [0..<Suc n] (rev_y_scale_k row hid) (s0, 0) = Inr (row ! (hid + n), n)"
      by (simp add: for_loop_append rev_y_scale_k_def getitem_def)
    moreover have "\<forall>k<Suc n. row ! (hid + k) \<le> row ! (hid + n)"
      using ub True by (auto simp: less_Suc_eq)
    moreover have "s0 < row ! (hid + n)" using best True by auto
    moreover have "\<forall>k<n. row ! (hid + k) < row ! (hid + n)"
      using ub True by force
    ultimately show ?thesis by auto
  next
    case False
    with inb run have "for_loop [0..<Suc n] (rev_y_scale_k row hid) (s0, 0) = Inr (sai, arg)"
      by (simp add: for_loop_append rev_y_scale_k_def getitem_def)
    moreover have "\<forall>k<Suc n. row ! (hid + k) \<le> sai"
      using ub False by (auto simp: less_Suc_eq)
    ultimately show ?thesis using best by auto
  qed
qed

lemma scale_y_param_nth:
  assumes "scale_y_param self = get_y_scale_param cats"
  shows "getitem (scale_y_param self) 0 = Inr (map length cats)"
    and "getitem (scale_y_param self) (Suc 0) = Inr (map (group_offset cats) [0..<Suc (length cats)])"
    and "scale_y_param self ! 0 = map length cats"
    and "scale_y_param self ! Suc 0 = map (group_offset cats) [0..<Suc (length cats)]"
  using assms by (simp_all add: get_y_scale_param_eq getitem_def del: upt_Suc)

lemma getitem_in_range: "i < length xs \<Longrightarrow> getitem xs i = Inr (xs ! i)"
  by (simp add: getitem_def)

lemma group_in_row:
  assumes "j < length cats" "sum_list (map length cats) \<le> length row"
  shows "group_offset cats j + length (cats ! j) \<le> length row"
  using assms group_offset_le_total [of cats "Suc j"] by (simp add: group_offset_Suc)

lemma rev_y_scale_j_eq:
  assumes enc: "scale_y_param self = get_y_scale_param cats"
    and j: "j < length cats" and row: "sum_list (map length cats) \<le> length row"
  shows "rev_y_scale_j self row j res = Inr (res[j := group_argmax cats row j])"
proof -
  obtain sai arg where
    "for_loop [0..<length (cats ! j)] (rev_y_scale_k row (group_offset cats j)) (- 99998888, 0) =
       Inr (sai, arg)"
    using rev_y_scale_k_loop [OF group_in_row [OF j row]] by blast
  then show ?thesis
    using j by (simp add: rev_y_scale_j_def scale_y_param_nth [OF enc] getitem_in_range
        group_argmax_def nth_append del: upt_Suc)
qed

lemma rev_y_scale_i_eq:
  assumes enc: "scale_y_param self = get_y_scale_param cats"
    and row: "sum_list (map length cats) \<le> length row"
  shows "rev_y_scale_i self row = Inr (map (group_argmax cats row) [0..<length cats])"
  unfolding rev_y_scale_i_def scale_y_param_nth(1) [OF enc] bindE_Inr length_map
  by (rule for_loop_update) (simp_all add: rev_y_scale_j_eq [OF enc _ row])

lemma rev_y_scale_eq:
  assumes enc: "scale_y_param self = get_y_scale_param cats"
    and rows: "\<forall>row \<in> set y_inr. sum_list (map length cats) \<le> length row"
  shows "rev_y_scale self y_inr =
     Inr (map (\<lambda>i. map (group_argmax cats (y_inr ! i)) [0..<length cats]) [0..<length y_inr])"
  unfolding rev_y_scale_def scale_y_param_nth(1) [OF enc] bindE_Inr length_map
  by (rule for_loop_update) (simp_all add: rev_y_scale_i_eq [OF enc] rows)

text \<open>
  Claim C9. For every matrix of probability vectors and every group \<open>j\<close>,
  \<^verbatim>\<open>rev_y_scale\<close> returns, for each row, an index below the group's size
  \<^verbatim>\<open>scale_y_param[0][j]\<close> whose entry, counted from the group's offset
  \<^verbatim>\<open>scale_y_param[1][j]\<close>, is a maximum of the group's entries, and the first such
  index. The entries of the group are above the start value \<open>-99998888\<close> of the scan,
  as probabilities are; the groups are those \<^verbatim>\<open>get_y_scale_param\<close> computes, each with
  at least one level.
\<close>

theorem rev_y_scale_argmax:
  assumes enc: "scale_y_param self = get_y_scale_param cats"
    and rows: "\<forall>row \<in> set y_inr. sum_list (map length cats) \<le> length row"
    and i: "i < length y_inr" and j: "j < length cats"
    and sz: "sz = scale_y_param self ! 0 ! j" and hid: "hid = scale_y_param self ! 1 ! j"
    and pos: "0 < sz"
    and prob: "\<forall>k<sz. - 99998888 < y_inr ! i ! (hid + k)"
  shows "\<exists>res. rev_y_scale self y_inr = Inr res \<and> length res = length y_inr \<and>
           res ! i ! j < sz \<and>
           (\<forall>k<sz. y_inr ! i ! (hid + k) \<le> y_inr ! i ! (hid + res ! i ! j)) \<and>
           (\<forall>k<res ! i ! j. y_inr ! i ! (hid + k) < y_inr ! i ! (hid + res ! i ! j))"
proof -
  let ?row = "y_inr ! i"
  have sz_eq: "sz = length (cats ! j)" and hid_eq: "hid = group_offset cats j"
    using j by (simp_all add: sz hid scale_y_param_nth [OF enc] nth_append del: upt_Suc)
  have row: "sum_list (map length cats) \<le> length ?row"
    using rows i by simp
  obtain sai arg where
    run: "for_loop [0..<sz] (rev_y_scale_k ?row hid) (- 99998888, 0) = Inr (sai, arg)" and
    ub: "\<forall>k<sz. ?row ! (hid + k) \<le> sai" and
    best: "(sai = - 99998888 \<and> arg = 0) \<or>
           (arg < sz \<and> sai = ?row ! (hid + arg) \<and> - 99998888 < sai \<and>
            (\<forall>k<arg. ?row ! (hid + k) < sai))"
    using rev_y_scale_k_loop [OF group_in_row [OF j row], of "- 99998888"]
    unfolding sz_eq hid_eq by blast
  have "\<not> (sai = - 99998888 \<and> arg = 0)"
    using ub prob pos by force
  with best have arg: "arg < sz" "sai = ?row ! (hid + arg)" "\<forall>k<arg. ?row ! (hid + k) < sai"
    by auto
  have "group_argmax cats ?row j = arg"
    using run by (simp add: group_argmax_def sz_eq hid_eq)
  then have "map (\<lambda>i. map (group_argmax cats (y_inr ! i)) [0..<length cats]) [0..<length y_inr] ! i ! j = arg"
    using i j by simp
  then show ?thesis
    using arg ub by (simp add: rev_y_scale_eq [OF enc rows])
qed

theorem rev_y_scale_argmax_witness:
  "\<exists>res. rev_y_scale
       \<lparr>n_qubit = 5, num_class = 3, solver = ''Adam'', cost = ''log_loss'', do_x_scale = False,
        x_norm_range = 1, y_exp_ratio = 2, callback = False,
        scale_y_param = get_y_scale_param [[0, 1], [0, 1, 2 :: int]]\<rparr>
       [[0, 1, 0, 1, 1]] = Inr res \<and> length res = length [[0, 1, 0, 1, 1 :: real]] \<and>
     res ! 0 ! 1 < 3 \<and>
     (\<forall>k<3. [[0, 1, 0, 1, 1]] ! 0 ! (2 + k) \<le> [[0, 1, 0, 1, 1 :: real]] ! 0 ! (2 + res ! 0 ! 1)) \<and>
     (\<forall>k<res ! 0 ! 1. [[0, 1, 0, 1, 1]] ! 0 ! (2 + k) < [[0, 1, 0, 1, 1 :: real]] ! 0 ! (2 + res ! 0 ! 1))"
proof -
  let ?C = "[[0, 1], [0, 1, 2 :: int]]"
  let ?Y = "[[0, 1, 0, 1, 1 :: real]]"
  let ?S = "\<lparr>n_qubit = 5, num_class = 3, solver = ''Adam'', cost = ''log_loss'',
     do_x_scale = False, x_norm_range = 1, y_exp_ratio = 2, callback = False,
     scale_y_param = get_y_scale_param ?C\<rparr>"
  have gy: "get_y_scale_param ?C = [[2, 3], [0, 2, 5]]"
    by (simp add: get_y_scale_param_def)
  have h1: "scale_y_param ?S = get_y_scale_param ?C" by simp
  have h2: "\<forall>row \<in> set ?Y. sum_list (map length ?C) \<le> length row" by simp
  have h3: "(0::nat) < length ?Y" by simp
  have h4: "(1::nat) < length ?C" by simp
  have h5: "(3::nat) = scale_y_param ?S ! 0 ! 1" by (simp add: gy)
  have h6: "(2::nat) = scale_y_param ?S ! 1 ! 1" by (simp add: gy)
  have h7: "(0::nat) < 3" by simp
  have h8: "\<forall>k<3. - 99998888 < ?Y ! 0 ! (2 + k)"
  proof (intro allI impI)
    fix k :: nat assume "k < 3"
    then consider "k = 0" | "k = 1" | "k = 2" by linarith
    then show "- 99998888 < ?Y ! 0 ! (2 + k)"
      by cases simp_all
  qed
  show ?thesis
    by (rule rev_y_scale_argmax [OF h1 h2 h3 h4 h5 h6 h7 h8])
qed

subsection \<open>The grouped softmax in \<^verbatim>\<open>cost_func\<close>\<close>

lemma for_loop_appends_prefix:
  assumes body: "\<And>i acc. i < n \<Longrightarrow> body i acc = Inr (acc @ f i)"
  shows "k \<le> n \<Longrightarrow> for_loop [0..<k] body acc = Inr (acc @ concat (map f [0..<k]))"
proof (induction k)
  case 0
  then show ?case by simp
next
  case (Suc k)
  then have run: "for_loop [0..<k] body acc = Inr (acc @ concat (map f [0..<k]))" by simp
  have step: "body k (acc @ concat (map f [0..<k])) = Inr ((acc @ concat (map f [0..<k])) @ f k)"
    using Suc.prems by (intro body) simp
  show ?case
    by (simp only: for_loop_upt_Suc run bindE_Inr step) simp
qed

lemma for_loop_appends:
  assumes "\<And>i acc. i < n \<Longrightarrow> body i acc = Inr (acc @ f i)"
  shows "for_loop [0..<n] body acc = Inr (acc @ concat (map f [0..<n]))"
  using for_loop_appends_prefix [of n body f n acc] assms by simp

lemma softmax_wa_loop:
  "hid + n \<le> length row \<Longrightarrow>
   for_loop [0..<n] (softmax_wa ratio row hid) a =
     Inr (a + (\<Sum>k < n. exp (ratio * row ! (hid + k))))"
proof (induction n)
  case 0
  then show ?case by simp
next
  case (Suc n)
  then show ?case
    by (simp add: for_loop_append softmax_wa_def getitem_def)
qed

lemma cost_func_k_loop:
  assumes "hid + n \<le> length row"
  shows "for_loop [0..<n] (cost_func_k ratio row hid wa) ypf =
     Inr (ypf @ map (\<lambda>k. exp (ratio * row ! (hid + k)) / wa) [0..<n])"
proof -
  have "for_loop [0..<n] (cost_func_k ratio row hid wa) ypf =
     Inr (ypf @ concat (map (\<lambda>k. [exp (ratio * row ! (hid + k)) / wa]) [0..<n]))"
    using assms by (intro for_loop_appends) (simp add: cost_func_k_def getitem_def)
  moreover have "concat (map (\<lambda>k. [exp (ratio * row ! (hid + k)) / wa]) [0..<n]) =
      map (\<lambda>k. exp (ratio * row ! (hid + k)) / wa) [0..<n]"
    by (induction n) simp_all
  ultimately show ?thesis by simp
qed

lemma cost_func_j_eq:
  assumes enc: "scale_y_param self = get_y_scale_param cats"
    and j: "j < length cats" and row: "sum_list (map length cats) \<le> length row"
  shows "cost_func_j self row j ypf =
     Inr (ypf @ group_softmax (y_exp_ratio self) row (group_offset cats j) (length (cats ! j)))"
  using j softmax_wa_loop [OF group_in_row [OF j row]] cost_func_k_loop [OF group_in_row [OF j row]]
  by (simp add: cost_func_j_def scale_y_param_nth [OF enc] getitem_in_range group_softmax_def
      nth_append del: upt_Suc)

lemma cost_func_i_eq:
  assumes enc: "scale_y_param self = get_y_scale_param cats"
    and row: "sum_list (map length cats) \<le> length (y_pred ! i)"
  shows "cost_func_i self y_pred i ypf =
     Inr (ypf @ grouped_softmax (y_exp_ratio self) cats (y_pred ! i))"
  unfolding cost_func_i_def scale_y_param_nth(1) [OF enc] bindE_Inr length_map grouped_softmax_def
  by (rule for_loop_appends) (simp add: cost_func_j_eq [OF enc _ row])

lemma cost_func_ypf_eq:
  assumes enc: "scale_y_param self = get_y_scale_param cats"
    and rows: "\<forall>row \<in> set y_pred. sum_list (map length cats) \<le> length row"
  shows "cost_func_ypf self y_pred =
     Inr (concat (map (grouped_softmax (y_exp_ratio self) cats) y_pred))"
proof -
  have "for_loop [0..<length y_pred] (cost_func_i self y_pred) [] =
     Inr ([] @ concat (map (\<lambda>i. grouped_softmax (y_exp_ratio self) cats (y_pred ! i))
                          [0..<length y_pred]))"
    using rows by (intro for_loop_appends) (simp add: cost_func_i_eq [OF enc])
  moreover have "map (\<lambda>i. grouped_softmax (y_exp_ratio self) cats (y_pred ! i)) [0..<length y_pred] =
      map (grouped_softmax (y_exp_ratio self) cats) y_pred"
    by (rule nth_equalityI) simp_all
  ultimately show ?thesis by (simp add: cost_func_ypf_def)
qed


lemma length_group_softmax [simp]: "length (group_softmax ratio r hid n) = n"
  by (simp add: group_softmax_def)

lemma length_grouped_softmax [simp]:
  "length (grouped_softmax ratio cats r) = sum_list (map length cats)"
proof -
  have "map (\<lambda>j. length (cats ! j)) [0..<length cats] = map length cats"
    by (rule nth_equalityI) simp_all
  then show ?thesis
    by (simp add: grouped_softmax_def length_concat comp_def)
qed




lemma length_concat_uniform:
  assumes "\<forall>xs \<in> set xss. length xs = w"
  shows "length (concat xss) = length xss * w"
  using assms by (induction xss) simp_all





subsection \<open>\<^verbatim>\<open>_predict_inner\<close> and \<^verbatim>\<open>cost_func\<close> in closed form\<close>

lemma predict_inner_fold:
  "fold (predict_inner_x ex self) xs (acc, c) =
     (acc @ raw_outputs ex self (parameters c) xs, c\<lparr>trace := trace c @ map Run xs\<rparr>)"
proof (induction xs arbitrary: acc c)
  case Nil
  then show ?case by (simp add: raw_outputs_def)
next
  case (Cons x xs)
  have step: "predict_inner_x ex self x (acc, c) =
      (acc @ [map (expectation_value ex (parameters c) x) [0..<n_qubit self]],
       c\<lparr>trace := trace c @ [Run x]\<rparr>)"
    by (simp add: predict_inner_x_def run_def)
  show ?case
    by (simp add: step Cons.IH) (simp add: raw_outputs_def)
qed

lemma predict_inner_eq:
  "predict_inner ex self c xs =
     (raw_outputs ex self (parameters c) xs, c\<lparr>trace := trace c @ map Run xs\<rparr>)"
  by (simp add: predict_inner_def predict_inner_fold)

lemma raw_outputs_rows:
  "\<forall>row \<in> set (raw_outputs ex self theta xs). length row = n_qubit self"
  by (simp add: raw_outputs_def)

lemma length_raw_outputs [simp]: "length (raw_outputs ex self theta xs) = length xs"
  by (simp add: raw_outputs_def)

lemma cost_func_log_loop:
  assumes "\<forall>i<n. ysf ! i = 1 \<longrightarrow> i < length ypf"
  shows "for_loop [0..<n] (cost_func_log ypf ysf) a =
     Inr (a - (\<Sum>i | i < n \<and> ysf ! i = 1. ln (ypf ! i)))"
  using assms
proof (induction n)
  case 0
  then show ?case by simp
next
  case (Suc n)
  have split: "{i. i < Suc n \<and> ysf ! i = 1} =
      (if ysf ! n = 1 then insert n {i. i < n \<and> ysf ! i = 1} else {i. i < n \<and> ysf ! i = 1})"
    by (auto simp: less_Suc_eq)
  have fin: "finite {i. i < n \<and> ysf ! i = 1}" by simp
  from Suc have run: "for_loop [0..<n] (cost_func_log ypf ysf) a =
      Inr (a - (\<Sum>i | i < n \<and> ysf ! i = 1. ln (ypf ! i)))"
    by simp
  have step: "cost_func_log ypf ysf n b =
      Inr (if ysf ! n = 1 then b - ln (ypf ! n) else b)" for b
    using Suc.prems by (simp add: cost_func_log_def getitem_def)
  show ?case
    unfolding for_loop_upt_Suc run bindE_Inr step split
    by (simp add: fin)
qed

lemma length_predicted:
  "length (predicted ex self cats theta xs) = length xs * sum_list (map length cats)"
  unfolding predicted_def
  using length_concat_uniform [of "map (grouped_softmax (y_exp_ratio self) cats) (raw_outputs ex self theta xs)"
      "sum_list (map length cats)"]
  by simp

lemma cost_func_eq:
  assumes cost: "cost self = ''log_loss''"
    and enc: "scale_y_param self = get_y_scale_param cats"
    and wide: "sum_list (map length cats) \<le> n_qubit self"
    and ysf: "ysf = concat y_scaled"
    and hot: "\<forall>i<length ysf. ysf ! i = 1 \<longrightarrow> i < length x_scaled * sum_list (map length cats)"
    and ne: "ysf \<noteq> []"
  shows "cost_func ex self theta x_scaled y_scaled c =
     (Inr ((0 - (\<Sum>i | i < length ysf \<and> ysf ! i = 1. ln (predicted ex self cats theta x_scaled ! i)))
             / real (length ysf)),
      c\<lparr>parameters := theta, trace := trace c @ UpdateParameters theta # map Run x_scaled\<rparr>)"
proof -
  let ?c1 = "update_parameters c theta"
  have pred: "predict_inner ex self ?c1 x_scaled =
      (raw_outputs ex self theta x_scaled,
       c\<lparr>parameters := theta, trace := trace c @ UpdateParameters theta # map Run x_scaled\<rparr>)"
    by (simp add: predict_inner_eq update_parameters_def)
  have rows: "\<forall>row \<in> set (raw_outputs ex self theta x_scaled). sum_list (map length cats) \<le> length row"
    using wide by (simp add: raw_outputs_def)
  have ypf: "cost_func_ypf self (raw_outputs ex self theta x_scaled) =
      Inr (predicted ex self cats theta x_scaled)"
    by (simp add: cost_func_ypf_eq [OF enc rows] predicted_def)
  have loop: "for_loop [0..<length ysf] (cost_func_log (predicted ex self cats theta x_scaled) ysf) 0 =
      Inr (0 - (\<Sum>i | i < length ysf \<and> ysf ! i = 1. ln (predicted ex self cats theta x_scaled ! i)))"
    using hot by (intro cost_func_log_loop) (simp add: length_predicted)
  show ?thesis
    unfolding cost_func_def Let_def pred fst_conv snd_conv ypf bindE_Inr ysf [symmetric] loop
    using cost ne by simp
qed

text \<open>
  Claim C1. The cost is to be the sum of \<open>-log p\<close> over the one-hot positions whose
  target is 1, divided by the number of samples. \<^verbatim>\<open>cost_func\<close> divides by
  \<^verbatim>\<open>len(ysf)\<close>, the number of one-hot positions of the whole batch: for one sample
  with one label of two levels, all expectation values 0 and target \<open>[1, 0]\<close>, both
  probabilities are \<open>1/2\<close>, the sum is \<open>ln 2\<close>, and the code returns \<open>ln 2 / 2\<close>,
  not \<open>ln 2 / 1\<close>.
\<close>

theorem cost_func_divides_by_positions:
  "fst (cost_func example_externals
          \<lparr>n_qubit = 2, num_class = 2, solver = ''BFGS'', cost = ''log_loss'', do_x_scale = False,
           x_norm_range = 1, y_exp_ratio = 2.2, callback = False,
           scale_y_param = get_y_scale_param [[0, 1 :: int]]\<rparr>
          [0] [[0]] [[1, 0]] \<lparr>parameters = [0], trace = []\<rparr>) = Inr (ln 2 / 2) \<and>
   ln 2 / 2 \<noteq> (0 - ln (1 / 2)) / real (length [[0 :: real]])"
proof -
  let ?C = "[[0, 1 :: int]]"
  let ?S = "\<lparr>n_qubit = 2, num_class = 2, solver = ''BFGS'', cost = ''log_loss'', do_x_scale = False,
           x_norm_range = 1, y_exp_ratio = 2.2, callback = False,
           scale_y_param = get_y_scale_param ?C\<rparr>"
  let ?ysf = "[1, 0 :: real]"
  have hot_set: "{i. i < length ?ysf \<and> ?ysf ! i = 1} = {0}"
    by (auto simp: less_Suc_eq nth_Cons')
  have p0: "predicted example_externals ?S ?C [0] [[0]] ! 0 = 1 / 2"
    by (simp add: predicted_def raw_outputs_def grouped_softmax_def group_softmax_def
        group_offset_def example_externals_def lessThan_Suc numeral_2_eq_2)
  have h1: "cost ?S = ''log_loss''" by simp
  have h2: "scale_y_param ?S = get_y_scale_param ?C" by simp
  have h3: "sum_list (map length ?C) \<le> n_qubit ?S" by simp
  have h4: "?ysf = concat [[1, 0]]" by simp
  have h5: "\<forall>i<length ?ysf. ?ysf ! i = 1 \<longrightarrow> i < length [[0 :: real]] * sum_list (map length ?C)"
    by simp
  have h6: "?ysf \<noteq> []" by simp
  have ln_half: "ln (1 / 2 :: real) = - ln 2"
    by (simp add: ln_div)
  have "fst (cost_func example_externals ?S [0] [[0]] [[1, 0]] \<lparr>parameters = [0], trace = []\<rparr>) =
      Inr ((0 - ln (1 / 2)) / 2)"
    unfolding cost_func_eq [OF h1 h2 h3 h4 h5 h6] fst_conv hot_set
    using p0 by simp
  moreover have "ln (2 :: real) > 0" by simp
  ultimately show ?thesis
    by (simp add: ln_half)
qed

subsection \<open>Loops with a known state after every iteration\<close>

lemma for_loop_closed_prefix:
  assumes "\<And>i. i < n \<Longrightarrow> body i (F i) = Inr (F (Suc i))"
  shows "k \<le> n \<Longrightarrow> for_loop [0..<k] body (F 0) = Inr (F k)"
proof (induction k)
  case 0
  then show ?case by simp
next
  case (Suc k)
  then have run: "for_loop [0..<k] body (F 0) = Inr (F k)" by simp
  have step: "body k (F k) = Inr (F (Suc k))" using Suc.prems by (intro assms) simp
  show ?case by (simp only: for_loop_upt_Suc run bindE_Inr step)
qed

lemma for_loop_closed:
  assumes "\<And>i. i < n \<Longrightarrow> body i (F i) = Inr (F (Suc i))" and "init = F 0"
  shows "for_loop [0..<n] body init = Inr (F n)"
  using for_loop_closed_prefix [of n body F n] assms by simp

lemma for_loop_c_append:
  "for_loop_c (xs @ ys) body s c =
     (case for_loop_c xs body s c of
        (Inl e, c') \<Rightarrow> (Inl e, c')
      | (Inr s', c') \<Rightarrow> for_loop_c ys body s' c')"
  by (induction xs arbitrary: s c) (auto split: prod.splits sum.splits)

lemma for_loop_c_closed_prefix:
  assumes "\<And>i. i < length idx \<Longrightarrow> body (idx ! i) (F i) (G i) = (Inr (F (Suc i)), G (Suc i))"
  shows "k \<le> length idx \<Longrightarrow> for_loop_c (take k idx) body (F 0) (G 0) = (Inr (F k), G k)"
proof (induction k)
  case 0
  then show ?case by simp
next
  case (Suc k)
  then have run: "for_loop_c (take k idx) body (F 0) (G 0) = (Inr (F k), G k)" by simp
  have step: "body (idx ! k) (F k) (G k) = (Inr (F (Suc k)), G (Suc k))"
    using Suc.prems by (intro assms) simp
  have "take (Suc k) idx = take k idx @ [idx ! k]"
    using Suc.prems by (simp add: take_Suc_conv_app_nth)
  then show ?case
    by (simp add: for_loop_c_append run step)
qed

lemma for_loop_c_closed:
  assumes "\<And>i. i < length idx \<Longrightarrow> body (idx ! i) (F i) (G i) = (Inr (F (Suc i)), G (Suc i))"
    and "s = F 0" and "c = G 0"
  shows "for_loop_c idx body s c = (Inr (F (length idx)), G (length idx))"
  using for_loop_c_closed_prefix [of idx body F G "length idx"] assms by simp

subsection \<open>The softmax in place of \<^verbatim>\<open>_cost_func_grad\<close>\<close>

lemma cost_func_grad_k_loop:
  assumes "hid + n \<le> length row"
  shows "for_loop [0..<n] (cost_func_grad_k ratio hid wa) row =
     Inr (take hid row @ map (\<lambda>k. exp (ratio * row ! (hid + k)) / wa) [0..<n] @ drop (hid + n) row)"
proof (rule for_loop_closed [where F = "\<lambda>k. take hid row @
      map (\<lambda>k. exp (ratio * row ! (hid + k)) / wa) [0..<k] @ drop (hid + k) row"])
  fix k assume k: "k < n"
  let ?f = "\<lambda>k. exp (ratio * row ! (hid + k)) / wa"
  let ?pre = "take hid row @ map ?f [0..<k]"
  have len: "length ?pre = hid + k" using assms k by simp
  have dr: "drop (hid + k) row = row ! (hid + k) # drop (hid + Suc k) row"
    using assms k by (simp add: Cons_nth_drop_Suc)
  have cur: "take hid row @ map ?f [0..<k] @ drop (hid + k) row =
      ?pre @ row ! (hid + k) # drop (hid + Suc k) row"
    using dr by simp
  have get: "getitem (?pre @ row ! (hid + k) # drop (hid + Suc k) row) (hid + k) = Inr (row ! (hid + k))"
    unfolding getitem_def using len by (simp add: nth_append)
  have upd: "(?pre @ row ! (hid + k) # drop (hid + Suc k) row)[hid + k := v] =
      ?pre @ v # drop (hid + Suc k) row" for v
    using len by (simp add: list_update_append)
  show "cost_func_grad_k ratio hid wa k
          (take hid row @ map ?f [0..<k] @ drop (hid + k) row) =
        Inr (take hid row @ map ?f [0..<Suc k] @ drop (hid + Suc k) row)"
    unfolding cur cost_func_grad_k_def get bindE_Inr upd by simp
next
  show "row = take hid row @ map (\<lambda>k. exp (ratio * row ! (hid + k)) / wa) [0..<0] @ drop (hid + 0) row"
    by simp
qed

lemma cost_func_grad_j_eq:
  assumes enc: "scale_y_param self = get_y_scale_param cats"
    and j: "j < length cats" and row: "sum_list (map length cats) \<le> length row"
  shows "cost_func_grad_j self j row =
     Inr (take (group_offset cats j) row @
          group_softmax (y_exp_ratio self) row (group_offset cats j) (length (cats ! j)) @
          drop (group_offset cats j + length (cats ! j)) row)"
  using j softmax_wa_loop [OF group_in_row [OF j row]]
    cost_func_grad_k_loop [OF group_in_row [OF j row]]
  by (simp add: cost_func_grad_j_def scale_y_param_nth [OF enc] getitem_in_range group_softmax_def
      nth_append del: upt_Suc)

lemma length_concat_groups:
  "j \<le> length cats \<Longrightarrow>
   length (concat (map (\<lambda>j. group_softmax ratio r (group_offset cats j) (length (cats ! j))) [0..<j])) =
     group_offset cats j"
proof (induction j)
  case 0
  then show ?case by (simp add: group_offset_def)
next
  case (Suc j)
  then show ?case by (simp add: group_offset_Suc)
qed

lemma group_softmax_cong:
  "(\<And>k. k < n \<Longrightarrow> r ! (hid + k) = r' ! (hid + k)) \<Longrightarrow>
   group_softmax ratio r hid n = group_softmax ratio r' hid n"
  by (simp add: group_softmax_def)

lemma cost_func_grad_softmax_eq:
  assumes enc: "scale_y_param self = get_y_scale_param cats"
    and row: "sum_list (map length cats) \<le> length r"
  shows "cost_func_grad_softmax self r =
     Inr (grouped_softmax (y_exp_ratio self) cats r @ drop (sum_list (map length cats)) r)"
proof -
  let ?g = "\<lambda>j. group_softmax (y_exp_ratio self) r (group_offset cats j) (length (cats ! j))"
  let ?F = "\<lambda>j. concat (map ?g [0..<j]) @ drop (group_offset cats j) r"
  have total: "group_offset cats (length cats) = sum_list (map length cats)"
    by (simp add: group_offset_def)
  have "for_loop [0..<length cats] (cost_func_grad_j self) r = Inr (?F (length cats))"
  proof (rule for_loop_closed [where F = ?F])
    fix j assume j: "j < length cats"
    let ?hid = "group_offset cats j" and ?n = "length (cats ! j)"
    have len: "length (concat (map ?g [0..<j])) = ?hid"
      using j by (intro length_concat_groups) simp
    have hid: "?hid + ?n \<le> length r"
      by (rule group_in_row [OF j row])
    have lenF: "sum_list (map length cats) \<le> length (?F j)"
      using len row group_offset_le_total [of cats j] by simp
    have tk: "take ?hid (?F j) = concat (map ?g [0..<j])"
      using len by simp
    have dr: "drop (?hid + ?n) (?F j) = drop (group_offset cats (Suc j)) r"
      using len j by (simp add: group_offset_Suc add.commute)
    have "(?F j) ! (?hid + k) = r ! (?hid + k)" if "k < ?n" for k
      using len hid that by (simp add: nth_append)
    then have gs: "group_softmax (y_exp_ratio self) (?F j) ?hid ?n = ?g j"
      by (rule group_softmax_cong)
    show "cost_func_grad_j self j (?F j) = Inr (?F (Suc j))"
      unfolding cost_func_grad_j_eq [OF enc j lenF] tk dr gs by simp
  next
    show "r = ?F 0" by (simp add: group_offset_def)
  qed
  then show ?thesis
    by (simp add: cost_func_grad_softmax_def scale_y_param_nth [OF enc] grouped_softmax_def total
        del: upt_Suc)
qed

end
